theory Spec2Isabelle
  imports Main
begin

section \<open>The diff command of ksonnet (cmd/diff.go)\<close>

text \<open>
  The theory embeds \<^verbatim>\<open>cmd/diff.go\<close>: the entry point \<^verbatim>\<open>diffCmd.RunE\<close>, the resolver
  \<^verbatim>\<open>initDiffCmd\<close> with its four builders, \<^verbatim>\<open>setupClientConfig\<close> and
  \<^verbatim>\<open>expandEnvObjs\<close>. Every function that the file calls but does not define (the flag
  set, the metadata manager, the template expander, the cluster client) is a field of the
  record \<open>collab\<close>: its result is a parameter of every theorem. Each such call is also
  written to a trace of events, in the order in which the Go code makes the calls, so that
  "before any expansion" and "no client context is built" are statements about the trace.
\<close>

subsection \<open>Errors\<close>

text \<open>
  One constructor for each \<^verbatim>\<open>fmt.Errorf\<close> of the file, named after the argument error
  of the specification it stands for:
  \<^item> \<open>RequiresAtLeastOneArgument\<close>: "'diff' requires at least one argument, that is the
    name of the environment" (line 52);
  \<^item> \<open>TooManyArguments\<close>: "'diff' takes at most two arguments, that are the name of the
    environments" (line 55);
  \<^item> \<open>MissingOrInvalidPrefix\<close>: "<env> must be prefaced by local: or remote:, ex:
    remote:us-west/prod" (line 160);
  \<^item> \<open>UnsupportedFlagCombination\<close>: "'-f' is not currently supported for multiple
    environments" (line 163);
  \<^item> \<open>PrefixNotAllowedForSingleArgument\<close>: "single <env> argument with prefix 'local:' or
    'remote:' not allowed" (line 196).

  \<open>NilPointerDereference\<close> is the panic of \<^verbatim>\<open>*envFq1\<close> on a nil pointer, and
  \<open>CollaboratorError\<close> is an error value returned by a function outside the file.
\<close>

datatype error =
    RequiresAtLeastOneArgument
  | TooManyArguments
  | MissingOrInvalidPrefix
  | UnsupportedFlagCombination
  | PrefixNotAllowedForSingleArgument
  | NilPointerDereference
  | CollaboratorError string

subsection \<open>The two functions of package strings that the file uses\<close>

text \<open>\<^verbatim>\<open>strings.HasPrefix(s, prefix)\<close>:
  \<^verbatim>\<open>len(s) >= len(prefix) && s[0:len(prefix)] == prefix\<close>.\<close>

definition HasPrefix :: "string \<Rightarrow> string \<Rightarrow> bool" where
  "HasPrefix s p = (length p \<le> length s \<and> take (length p) s = p)"

text \<open>The text before and after the first occurrence of a one-byte separator
  (\<^verbatim>\<open>strings.Index\<close> and the two slices \<^verbatim>\<open>s[:m]\<close>, \<^verbatim>\<open>s[m+1:]\<close> of
  \<^verbatim>\<open>genSplit\<close>), if it occurs.\<close>

fun Cut :: "string \<Rightarrow> char \<Rightarrow> (string \<times> string) option" where
  "Cut [] sep = None"
| "Cut (c # s) sep =
     (if c = sep then Some ([], s)
      else (case Cut s sep of None \<Rightarrow> None | Some (a, b) \<Rightarrow> Some (c # a, b)))"

text \<open>\<^verbatim>\<open>strings.SplitN(s, sep, n)\<close> for a one-byte separator and \<open>n \<ge> 0\<close>: no
  substring for \<open>n = 0\<close>, otherwise at most \<open>n\<close> substrings, the last one being the
  unsplit remainder.\<close>

fun SplitN :: "string \<Rightarrow> char \<Rightarrow> nat \<Rightarrow> string list" where
  "SplitN s sep 0 = []"
| "SplitN s sep (Suc 0) = [s]"
| "SplitN s sep (Suc (Suc n)) =
     (case Cut s sep of None \<Rightarrow> [s] | Some (a, r) \<Rightarrow> a # SplitN r sep (Suc n))"

subsection \<open>Data\<close>

text \<open>\<^verbatim>\<open>[]*unstructured.Unstructured\<close>: the objects are opaque here. The two handles of
  a client are interface values: \<open>None\<close> is nil.\<close>

type_synonym Unstructured = string
type_synonym ClientPool = "nat option"
type_synonym Discovery = "nat option"
type_synonym AbsPath = string
type_synonym ConfigOverrides = string

text \<open>The fields of \<^verbatim>\<open>kubecfg.LocalEnv\<close> and \<^verbatim>\<open>kubecfg.Client\<close> that the file
  assigns.\<close>

record LocalEnv =
  Name :: string
  APIObjects :: "Unstructured list"

record Client =
  Name :: string
  APIObjects :: "Unstructured list"
  ClientPool :: ClientPool
  Discovery :: Discovery
  Namespace :: string

text \<open>The Go zero values \<^verbatim>\<open>&kubecfg.LocalEnv{}\<close> and \<^verbatim>\<open>&kubecfg.Client{}\<close>.\<close>

definition LocalEnv0 :: LocalEnv where
  "LocalEnv0 = \<lparr>LocalEnv.Name = [], LocalEnv.APIObjects = []\<rparr>"

definition Client0 :: Client where
  "Client0 = \<lparr>Name = [], APIObjects = [], ClientPool = None, Discovery = None,
     Namespace = []\<rparr>"

text \<open>\<^verbatim>\<open>kubecfg.DiffCmd\<close> is an interface with three implementations in the file;
  \<^verbatim>\<open>DiffRemoteCmd\<close> is built both for one environment (\<^verbatim>\<open>initDiffSingleEnv\<close>) and
  for a local against a remote one (\<^verbatim>\<open>initDiffRemoteCmd\<close>).\<close>

datatype DiffCmd =
    DiffRemoteCmd (DiffStrategy: string) (Client: Client)
  | DiffLocalCmd (DiffStrategy: string) (Env1: LocalEnv) (Env2: LocalEnv)
  | DiffRemotesCmd (DiffStrategy: string) (ClientA: Client) (ClientB: Client)

text \<open>The two fields of the template expander that \<^verbatim>\<open>expandEnvObjs\<close> reads and
  writes.\<close>

record Expander =
  FlagJpath :: "string list"
  ExtCodes :: "string list"

text \<open>\<^verbatim>\<open>metadata.Manager\<close>: the two methods that the file calls. \<^verbatim>\<open>LibPaths\<close>
  returns, in this order, \<^verbatim>\<open>libPath, vendorPath, envLibPath, envComponentPath,
  envParamsPath\<close>.\<close>

record Manager =
  LibPaths :: "string \<Rightarrow> AbsPath \<times> AbsPath \<times> AbsPath \<times> AbsPath \<times> AbsPath"
  ComponentPaths :: "error + string list"

subsection \<open>Calls that leave the file\<close>

datatype event =
    CallGetwd
  | CallGetStringArray string
  | CallGetString string
  | CallFind AbsPath
  | CallNewExpander
  | CallLibPaths string
  | CallComponentPaths
  | CallConstructBaseObj "string list" "string list"
  | CallImportParams string
  | CallExpand Expander "string list"
  | CallExpandEnvCmdObjs string "string list" AbsPath
  | CallRestClientPool string
  | CallNamespace
  | CallRestClient string ConfigOverrides
  | CallNamespaceFor ConfigOverrides
  | CallRun DiffCmd

text \<open>
  What the functions outside the file return. \<open>flagComponent\<close> is a constant of the
  package declared in another file. \<^verbatim>\<open>restClient\<close> receives the pointer
  \<^verbatim>\<open>overrides\<close> that \<^verbatim>\<open>namespaceFor\<close> reads afterwards, so it returns the overrides
  as it leaves them. The functions that receive \<^verbatim>\<open>&env\<close> are taken to read the name
  only. \<^verbatim>\<open>Run\<close> returns an error or nil.
\<close>

record collab =
  flagComponent :: string
  Getwd :: "error + string"
  GetStringArray :: "string \<Rightarrow> error + string list"
  GetString :: "string \<Rightarrow> error + string"
  Find :: "AbsPath \<Rightarrow> error + Manager"
  newExpander :: "error + Expander"
  constructBaseObj :: "string list \<Rightarrow> string list \<Rightarrow> error + string"
  importParams :: "string \<Rightarrow> string"
  Expand :: "Expander \<Rightarrow> string list \<Rightarrow> error + Unstructured list"
  expandEnvCmdObjs :: "string \<Rightarrow> string list \<Rightarrow> AbsPath \<Rightarrow> error + Unstructured list"
  restClientPool :: "string \<Rightarrow> error + ClientPool \<times> Discovery"
  namespace :: "error + string"
  restClient :: "string \<Rightarrow> ConfigOverrides \<Rightarrow> error + ClientPool \<times> Discovery \<times> ConfigOverrides"
  namespaceFor :: "ConfigOverrides \<Rightarrow> error + string"
  Run :: "DiffCmd \<Rightarrow> error option"

subsection \<open>Sequencing\<close>

text \<open>A computation takes the trace so far and returns an error or a value, and the
  trace extended by the calls it made. \<open>andThen\<close> is Go's
  \<^verbatim>\<open>x, err := m; if err != nil { return nil, err }; ...\<close>.\<close>

type_synonym 'a io = "event list \<Rightarrow> (error + 'a) \<times> event list"

definition return :: "'a \<Rightarrow> 'a io" where
  "return x = (\<lambda>tr. (Inr x, tr))"

definition raise :: "error \<Rightarrow> 'a io" where
  "raise e = (\<lambda>tr. (Inl e, tr))"

definition andThen :: "'a io \<Rightarrow> ('a \<Rightarrow> 'b io) \<Rightarrow> 'b io" where
  "andThen m f = (\<lambda>tr. case m tr of (Inl e, tr') \<Rightarrow> (Inl e, tr') | (Inr x, tr') \<Rightarrow> f x tr')"

definition call :: "event \<Rightarrow> error + 'a \<Rightarrow> 'a io" where
  "call ev r = (\<lambda>tr. (r, tr @ [ev]))"


section \<open>The functions of the file\<close>

subsection \<open>\<^verbatim>\<open>expandEnvObjs\<close> (lines 313 to 337)\<close>

definition expandEnvObjs :: "collab \<Rightarrow> string \<Rightarrow> Manager \<Rightarrow> Unstructured list io" where
  "expandEnvObjs K env manager =
     andThen (call CallNewExpander (newExpander K)) (\<lambda>expander.
     andThen (call (CallLibPaths env) (Inr (LibPaths manager env)))
       (\<lambda>(libPath, vendorPath, envLibPath, envComponentPath, envParamsPath).
     andThen (call CallComponentPaths (ComponentPaths manager)) (\<lambda>componentPaths.
     andThen (call (CallConstructBaseObj componentPaths [])
                (constructBaseObj K componentPaths [])) (\<lambda>baseObj.
     andThen (call (CallImportParams envParamsPath) (Inr (importParams K envParamsPath)))
       (\<lambda>params.
     let expander = expander\<lparr>FlagJpath :=
                      [libPath, vendorPath, envLibPath] @ FlagJpath expander\<rparr>;
         expander = expander\<lparr>ExtCodes := [baseObj, params] @ ExtCodes expander\<rparr>;
         envFiles = [envComponentPath]
     in call (CallExpand expander envFiles) (Expand K expander envFiles))))))"

subsection \<open>\<^verbatim>\<open>setupClientConfig\<close> (lines 293 to 310)\<close>

text \<open>\<^verbatim>\<open>&clientcmd.ConfigOverrides{}\<close>. The loading rules and the deferred client
  configuration are built in memory from constants and are not modelled.\<close>

definition ConfigOverrides0 :: ConfigOverrides where
  "ConfigOverrides0 = []"

definition setupClientConfig :: "collab \<Rightarrow> string \<Rightarrow> (ClientPool \<times> Discovery \<times> string) io" where
  "setupClientConfig K env =
     (let overrides = ConfigOverrides0 in
      andThen (call (CallRestClient env overrides) (restClient K env overrides))
        (\<lambda>(clientPool, discovery, overrides).
      andThen (call (CallNamespaceFor overrides) (namespaceFor K overrides)) (\<lambda>namespace.
      return (clientPool, discovery, namespace))))"

subsection \<open>The four builders (lines 188 to 291)\<close>

definition initDiffSingleEnv ::
  "collab \<Rightarrow> string \<Rightarrow> string \<Rightarrow> string list \<Rightarrow> AbsPath \<Rightarrow> DiffCmd io" where
  "initDiffSingleEnv K env diffStrategy files wd =
     (if HasPrefix env ''remote:'' \<or> HasPrefix env ''local:''
      then raise PrefixNotAllowedForSingleArgument
      else
        andThen (call (CallExpandEnvCmdObjs env files wd) (expandEnvCmdObjs K env files wd))
          (\<lambda>objs.
        andThen (call (CallRestClientPool env) (restClientPool K env)) (\<lambda>(pool, disc).
        andThen (call CallNamespace (namespace K)) (\<lambda>ns.
        return (DiffRemoteCmd diffStrategy
          (Client0\<lparr>APIObjects := objs, ClientPool := pool, Discovery := disc,
             Namespace := ns\<rparr>))))))"

definition initDiffLocalCmd ::
  "collab \<Rightarrow> string \<Rightarrow> string \<Rightarrow> string \<Rightarrow> Manager \<Rightarrow> DiffCmd io" where
  "initDiffLocalCmd K env1 env2 diffStrategy m =
     andThen (expandEnvObjs K env1 m) (\<lambda>objs1.
     andThen (expandEnvObjs K env2 m) (\<lambda>objs2.
     return (DiffLocalCmd diffStrategy
       (LocalEnv0\<lparr>LocalEnv.Name := env1, LocalEnv.APIObjects := objs1\<rparr>)
       (LocalEnv0\<lparr>LocalEnv.Name := env2, LocalEnv.APIObjects := objs2\<rparr>))))"

definition initDiffRemotesCmd ::
  "collab \<Rightarrow> string \<Rightarrow> string \<Rightarrow> string \<Rightarrow> Manager \<Rightarrow> DiffCmd io" where
  "initDiffRemotesCmd K env1 env2 diffStrategy m =
     andThen (expandEnvObjs K env1 m) (\<lambda>objsA.
     andThen (expandEnvObjs K env2 m) (\<lambda>objsB.
     andThen (setupClientConfig K env1) (\<lambda>(poolA, discA, nsA).
     andThen (setupClientConfig K env2) (\<lambda>(poolB, discB, nsB).
     return (DiffRemotesCmd diffStrategy
       (Client0\<lparr>Name := env1, APIObjects := objsA, ClientPool := poolA,
          Discovery := discA, Namespace := nsA\<rparr>)
       (Client0\<lparr>Name := env2, APIObjects := objsB, ClientPool := poolB,
          Discovery := discB, Namespace := nsB\<rparr>))))))"

definition initDiffRemoteCmd ::
  "collab \<Rightarrow> string \<Rightarrow> string \<Rightarrow> string \<Rightarrow> Manager \<Rightarrow> DiffCmd io" where
  "initDiffRemoteCmd K localEnv remoteEnv diffStrategy m =
     andThen (expandEnvObjs K localEnv m) (\<lambda>objs.
     andThen (setupClientConfig K remoteEnv) (\<lambda>(pool, disc, ns).
     return (DiffRemoteCmd diffStrategy
       (Client0\<lparr>APIObjects := objs, ClientPool := pool, Discovery := disc,
          Namespace := ns\<rparr>))))"

subsection \<open>The resolver \<^verbatim>\<open>initDiffCmd\<close> (lines 144 to 186)\<close>

definition remote :: string where
  "remote = ''remote''"

definition local :: string where
  "local = ''local''"

text \<open>The two locators are pointers: \<open>None\<close> is nil, and \<^verbatim>\<open>*envFq1\<close> panics on
  nil.\<close>

definition initDiffCmd ::
  "collab \<Rightarrow> AbsPath \<Rightarrow> string option \<Rightarrow> string option \<Rightarrow> string list \<Rightarrow> string \<Rightarrow> DiffCmd io"
  where
  "initDiffCmd K wd envFq1 envFq2 files diffStrategy =
     (case envFq2 of
        None \<Rightarrow>
          (case envFq1 of
             None \<Rightarrow> raise NilPointerDereference
           | Some e1 \<Rightarrow> initDiffSingleEnv K e1 diffStrategy files wd)
      | Some e2 \<Rightarrow>
          (case envFq1 of
             None \<Rightarrow> raise NilPointerDereference
           | Some e1 \<Rightarrow>
               (let env1 = SplitN e1 CHR '':'' 2;
                    env2 = SplitN e2 CHR '':'' 2
                in
                  if length env1 < 2 \<or> length env2 < 2 \<or>
                     (env1 ! 0 \<noteq> local \<and> env1 ! 0 \<noteq> remote) \<or>
                     (env2 ! 0 \<noteq> local \<and> env2 ! 0 \<noteq> remote)
                  then raise MissingOrInvalidPrefix
                  else if length files > 0 then raise UnsupportedFlagCombination
                  else
                    andThen (call (CallFind wd) (Find K wd)) (\<lambda>manager.
                      if env1 ! 0 = local \<and> env2 ! 0 = local
                      then initDiffLocalCmd K (env1 ! 1) (env2 ! 1) diffStrategy manager
                      else if env1 ! 0 = remote \<and> env2 ! 0 = remote
                      then initDiffRemotesCmd K (env1 ! 1) (env2 ! 1) diffStrategy manager
                      else
                        (let localEnv = env1 ! 1;
                             remoteEnv = env2 ! 1;
                             (localEnv, remoteEnv) =
                               (if env1 ! 0 = remote then (env2 ! 1, env1 ! 1)
                                else (localEnv, remoteEnv))
                         in initDiffRemoteCmd K localEnv remoteEnv diffStrategy manager)))))"

subsection \<open>The entry point \<^verbatim>\<open>diffCmd.RunE\<close> (lines 50 to 92)\<close>

definition flagDiffStrategy :: string where
  "flagDiffStrategy = ''diff-strategy''"

text \<open>\<^verbatim>\<open>metadata.AbsPath(cwd)\<close> is a conversion between string types. The result is
  the error that the command returns, \<open>Inr ()\<close> for nil.\<close>

definition RunE :: "collab \<Rightarrow> string list \<Rightarrow> unit io" where
  "RunE K args =
     (if length args = 0 then raise RequiresAtLeastOneArgument
      else if length args > 2 then raise TooManyArguments
      else
        andThen (call CallGetwd (Getwd K)) (\<lambda>cwd.
        let wd = cwd in
        andThen (call (CallGetStringArray (flagComponent K))
                   (GetStringArray K (flagComponent K))) (\<lambda>componentNames.
        let env1 = (if length args > 0 then Some (args ! 0) else None);
            env2 = (if length args > 1 then Some (args ! 1) else None)
        in
        andThen (call (CallGetString flagDiffStrategy) (GetString K flagDiffStrategy))
          (\<lambda>diffStrategy.
        andThen (initDiffCmd K wd env1 env2 componentNames diffStrategy) (\<lambda>c.
        call (CallRun c) (case Run K c of None \<Rightarrow> Inr () | Some e \<Rightarrow> Inl e))))))"


section \<open>Reading a trace\<close>

text \<open>The invocations of the template evaluator in a trace: the expander handed to
  \<^verbatim>\<open>Expand\<close> and the entry files, in the order of the calls.\<close>

definition expandCalls :: "event list \<Rightarrow> (Expander \<times> string list) list" where
  "expandCalls tr =
     concat (map (\<lambda>ev. case ev of CallExpand e fs \<Rightarrow> [(e, fs)] | _ \<Rightarrow> []) tr)"

text \<open>The calls that build a client context: \<^verbatim>\<open>restClient\<close> and
  \<^verbatim>\<open>namespaceFor\<close> in \<^verbatim>\<open>setupClientConfig\<close>, \<^verbatim>\<open>restClientPool\<close> and
  \<^verbatim>\<open>namespace\<close> in \<^verbatim>\<open>initDiffSingleEnv\<close>.\<close>

fun isClientCall :: "event \<Rightarrow> bool" where
  "isClientCall (CallRestClientPool env) = True"
| "isClientCall CallNamespace = True"
| "isClientCall (CallRestClient env ov) = True"
| "isClientCall (CallNamespaceFor ov) = True"
| "isClientCall ev = False"

section \<open>The evaluator's choice between external code fragments\<close>

text \<open>
  Modelled from the spec: the template evaluator, which reads \<^verbatim>\<open>ExtCodes\<close>, is not
  part of \<^verbatim>\<open>cmd/diff.go\<close>. Section 4.3 of the specification gives the fragments a
  fixed precedence order in which a fragment takes precedence over anything injected
  later: of the fragments that define a name, the first one in the list gives the value.
  What a single fragment defines is the parameter \<open>defines\<close>.
\<close>

fun extCodeValue :: "(string \<Rightarrow> string \<Rightarrow> 'v option) \<Rightarrow> string list \<Rightarrow> string \<Rightarrow> 'v option" where
  "extCodeValue defines [] name = None"
| "extCodeValue defines (c # cs) name =
     (case defines c name of Some v \<Rightarrow> Some v | None \<Rightarrow> extCodeValue defines cs name)"

section \<open>A fixed set of collaborators\<close>

text \<open>Concrete results for the functions outside the file, on which the functions of the
  file are run in the examples below. The evaluator of \<open>sampleCollab\<close> fails on the
  environment \<open>broken\<close>. \<open>nameIs\<close> reads a fragment \<open>name=value\<close>.\<close>

definition sampleManager :: Manager where
  "sampleManager =
     \<lparr>LibPaths = (\<lambda>env. (''/app/lib'', ''/app/vendor'',
          ''/app/environments/'' @ env @ ''/.metadata'',
          ''/app/environments/'' @ env @ ''/main.jsonnet'',
          ''/app/environments/'' @ env @ ''/params.libsonnet'')),
      ComponentPaths = Inr [''/app/components/redis.jsonnet'']\<rparr>"

definition sampleCollab :: collab where
  "sampleCollab =
     \<lparr>flagComponent = ''component'',
      Getwd = Inr ''/app'',
      GetStringArray = (\<lambda>name. Inr []),
      GetString = (\<lambda>name. Inr ''subset''),
      Find = (\<lambda>wd. Inr sampleManager),
      newExpander = Inr \<lparr>FlagJpath = [''/usr/share/jsonnet''], ExtCodes = [''params=caller'']\<rparr>,
      constructBaseObj = (\<lambda>paths names. Inr ''components=base''),
      importParams = (\<lambda>path. ''params='' @ path),
      Expand = (\<lambda>e files.
        if files = [''/app/environments/broken/main.jsonnet'']
        then Inl (CollaboratorError ''template evaluation failed'')
        else Inr files),
      expandEnvCmdObjs = (\<lambda>env files wd. Inr [env]),
      restClientPool = (\<lambda>env. Inr (Some 1, Some 2)),
      namespace = Inr ''default'',
      restClient = (\<lambda>env ov. Inr (Some 1, Some 2, env)),
      namespaceFor = (\<lambda>ov. Inr ov),
      Run = (\<lambda>c. None)\<rparr>"

definition nameIs :: "string \<Rightarrow> string \<Rightarrow> string option" where
  "nameIs c name =
     (case Cut c CHR ''='' of
        None \<Rightarrow> None
      | Some (k, v) \<Rightarrow> if k = name then Some v else None)"


section \<open>Splitting a locator\<close>

lemma Cut_append: "c \<notin> set a \<Longrightarrow> Cut (a @ c # r) c = Some (a, r)"
  by (induction a) auto

lemma Cut_SomeD: "Cut s c = Some (a, r) \<Longrightarrow> s = a @ c # r \<and> c \<notin> set a"
proof (induction s arbitrary: a)
  case Nil
  then show ?case by simp
next
  case (Cons x s)
  show ?case
  proof (cases "x = c")
    case True
    with Cons.prems show ?thesis by simp
  next
    case False
    with Cons.prems obtain a' where a': "Cut s c = Some (a', r)" "a = x # a'"
      by (auto split: option.splits)
    from Cons.IH[OF a'(1)] a'(2) False show ?thesis by simp
  qed
qed

lemma SplitN_2: "SplitN s c 2 = (case Cut s c of None \<Rightarrow> [s] | Some (a, r) \<Rightarrow> [a, r])"
  by (simp add: numeral_2_eq_2 split: option.splits)

lemma HasPrefix_iff: "HasPrefix s p \<longleftrightarrow> (\<exists>r. s = p @ r)"
proof
  assume "HasPrefix s p"
  then have "take (length p) s = p" unfolding HasPrefix_def by simp
  then have "s = p @ drop (length p) s"
    using append_take_drop_id[of "length p" s] by simp
  then show "\<exists>r. s = p @ r" ..
next
  assume "\<exists>r. s = p @ r"
  then show "HasPrefix s p" unfolding HasPrefix_def by auto
qed

lemma SplitN_kind:
  assumes "CHR '':'' \<notin> set k"
  shows "SplitN (k @ '':'' @ a) CHR '':'' 2 = [k, a]"
  using Cut_append[OF assms, of a] by (simp add: SplitN_2)

text \<open>The first element of the split is \<open>k\<close> exactly when the locator starts with
  \<open>k:\<close>, for a \<open>k\<close> without a colon.\<close>

lemma kind_iff_HasPrefix:
  assumes "CHR '':'' \<notin> set k"
  shows "(2 \<le> length (SplitN e CHR '':'' 2) \<and> SplitN e CHR '':'' 2 ! 0 = k)
         \<longleftrightarrow> HasPrefix e (k @ '':'')"
proof
  assume l: "2 \<le> length (SplitN e CHR '':'' 2) \<and> SplitN e CHR '':'' 2 ! 0 = k"
  then obtain r where "Cut e CHR '':'' = Some (k, r)"
    by (auto simp: SplitN_2 split: option.splits)
  from Cut_SomeD[OF this] have "e = (k @ '':'') @ r" by simp
  then show "HasPrefix e (k @ '':'')" unfolding HasPrefix_iff by blast
next
  assume "HasPrefix e (k @ '':'')"
  then obtain r where "e = k @ '':'' @ r" unfolding HasPrefix_iff by auto
  then show "2 \<le> length (SplitN e CHR '':'' 2) \<and> SplitN e CHR '':'' 2 ! 0 = k"
    using SplitN_kind[OF assms, of r] by simp
qed

lemma local_iff:
  "(2 \<le> length (SplitN e CHR '':'' 2) \<and> SplitN e CHR '':'' 2 ! 0 = local)
   \<longleftrightarrow> HasPrefix e ''local:''"
  using kind_iff_HasPrefix[of local e] by (simp add: local_def)

lemma remote_iff:
  "(2 \<le> length (SplitN e CHR '':'' 2) \<and> SplitN e CHR '':'' 2 ! 0 = remote)
   \<longleftrightarrow> HasPrefix e ''remote:''"
  using kind_iff_HasPrefix[of remote e] by (simp add: remote_def)

text \<open>The validation of line 159, for one locator: it is rejected exactly when it
  starts neither with \<open>local:\<close> nor with \<open>remote:\<close>.\<close>

lemma rejected_iff:
  "(length (SplitN e CHR '':'' 2) < 2 \<or>
     (SplitN e CHR '':'' 2 ! 0 \<noteq> local \<and> SplitN e CHR '':'' 2 ! 0 \<noteq> remote))
   \<longleftrightarrow> \<not> (HasPrefix e ''local:'' \<or> HasPrefix e ''remote:'')"
  using local_iff[of e] remote_iff[of e] by (auto simp: not_le)

lemma kinds_distinct:
  "local \<noteq> remote" "CHR '':'' \<notin> set local" "CHR '':'' \<notin> set remote"
  by (simp_all add: local_def remote_def)

section \<open>The resolver on two locators\<close>

lemmas io_defs = andThen_def call_def return_def raise_def

lemma two_unqualified:
  assumes "\<not> (HasPrefix e1 ''local:'' \<or> HasPrefix e1 ''remote:'') \<or>
           \<not> (HasPrefix e2 ''local:'' \<or> HasPrefix e2 ''remote:'')"
  shows "initDiffCmd K wd (Some e1) (Some e2) files s tr = (Inl MissingOrInvalidPrefix, tr)"
proof -
  let ?bad = "\<lambda>e. length (SplitN e CHR '':'' 2) < 2 \<or>
     (SplitN e CHR '':'' 2 ! 0 \<noteq> local \<and> SplitN e CHR '':'' 2 ! 0 \<noteq> remote)"
  from assms have "?bad e1 \<or> ?bad e2" unfolding rejected_iff .
  then show ?thesis
    unfolding initDiffCmd_def by (auto simp: Let_def raise_def)
qed

lemma two_qualified:
  assumes k1: "k1 = local \<or> k1 = remote" and k2: "k2 = local \<or> k2 = remote"
  shows "initDiffCmd K wd (Some (k1 @ '':'' @ a)) (Some (k2 @ '':'' @ b)) files s =
     (if files \<noteq> [] then raise UnsupportedFlagCombination
      else andThen (call (CallFind wd) (Find K wd)) (\<lambda>m.
        if k1 = local \<and> k2 = local then initDiffLocalCmd K a b s m
        else if k1 = remote \<and> k2 = remote then initDiffRemotesCmd K a b s m
        else if k1 = remote then initDiffRemoteCmd K b a s m
        else initDiffRemoteCmd K a b s m))"
proof -
  from k1 have s1: "SplitN (k1 @ '':'' @ a) CHR '':'' 2 = [k1, a]"
    using SplitN_kind kinds_distinct by blast
  from k2 have s2: "SplitN (k2 @ '':'' @ b) CHR '':'' 2 = [k2, b]"
    using SplitN_kind kinds_distinct by blast
  show ?thesis
    unfolding initDiffCmd_def option.case s1 s2 Let_def
    using k1 k2 kinds_distinct(1) by (auto simp: fun_eq_iff)
qed

section \<open>Manifest expansion\<close>

text \<open>When the expander, the component paths and the base object are available,
  \<^verbatim>\<open>expandEnvObjs\<close> makes six calls, the last one to the evaluator, and returns what
  the evaluator returns.\<close>

lemma expandEnvObjs_ok:
  assumes "newExpander K = Inr e"
    and "LibPaths m env = (libPath, vendorPath, envLibPath, envComponentPath, envParamsPath)"
    and "ComponentPaths m = Inr cps"
    and "constructBaseObj K cps [] = Inr baseObj"
  shows "expandEnvObjs K env m tr =
     (Expand K
        (e\<lparr>FlagJpath := [libPath, vendorPath, envLibPath] @ FlagJpath e,
           ExtCodes := [baseObj, importParams K envParamsPath] @ ExtCodes e\<rparr>)
        [envComponentPath],
      tr @ [CallNewExpander, CallLibPaths env, CallComponentPaths,
            CallConstructBaseObj cps [], CallImportParams envParamsPath,
            CallExpand
              (e\<lparr>FlagJpath := [libPath, vendorPath, envLibPath] @ FlagJpath e,
                 ExtCodes := [baseObj, importParams K envParamsPath] @ ExtCodes e\<rparr>)
              [envComponentPath]])"
  using assms unfolding expandEnvObjs_def by (simp add: io_defs Let_def)

lemma expandEnvObjs_trace:
  "\<exists>evs. snd (expandEnvObjs K env m tr) = tr @ evs \<and> (\<forall>ev \<in> set evs. \<not> isClientCall ev)"
  unfolding expandEnvObjs_def
  by (auto simp: io_defs Let_def split: sum.splits prod.splits)

lemma setupClientConfig_trace:
  "\<exists>evs. snd (setupClientConfig K env tr) = tr @ evs \<and> evs \<noteq> [] \<and>
     (\<forall>ev \<in> set evs. isClientCall ev)"
  unfolding setupClientConfig_def
  by (auto simp: io_defs Let_def split: sum.splits prod.splits)

lemma sample_expander:
  "newExpander sampleCollab =
     Inr \<lparr>FlagJpath = [''/usr/share/jsonnet''], ExtCodes = [''params=caller'']\<rparr>"
  by (simp add: sampleCollab_def)

lemma sample_LibPaths:
  "LibPaths sampleManager env = (''/app/lib'', ''/app/vendor'',
     ''/app/environments/'' @ env @ ''/.metadata'',
     ''/app/environments/'' @ env @ ''/main.jsonnet'',
     ''/app/environments/'' @ env @ ''/params.libsonnet'')"
  by (simp add: sampleManager_def)

lemma sample_ComponentPaths:
  "ComponentPaths sampleManager = Inr [''/app/components/redis.jsonnet'']"
  by (simp add: sampleManager_def)

lemma sample_baseObj:
  "constructBaseObj sampleCollab [''/app/components/redis.jsonnet''] [] =
     Inr ''components=base''"
  by (simp add: sampleCollab_def)

section \<open>The claims\<close>

subsection \<open>C1: the order of the library search paths\<close>

text \<open>
  C1, as the code has it. For every environment name, when the expander, the component
  paths and the base object are available, \<^verbatim>\<open>expandEnvObjs\<close> invokes the template
  evaluator once, on the environment's component file, with the search paths in the order
  shared library path, vendor path, environment library path, and then the paths the
  caller provided. The environment library path is the third entry, not the first.
\<close>

theorem expandEnvObjs_search_path_order:
  assumes "newExpander K = Inr e"
    and "LibPaths m env = (libPath, vendorPath, envLibPath, envComponentPath, envParamsPath)"
    and "ComponentPaths m = Inr cps"
    and "constructBaseObj K cps [] = Inr baseObj"
  shows "\<exists>e'. expandCalls (snd (expandEnvObjs K env m tr)) =
             expandCalls tr @ [(e', [envComponentPath])] \<and>
           FlagJpath e' = [libPath, vendorPath, envLibPath] @ FlagJpath e"
  unfolding expandEnvObjs_ok[OF assms] by (simp add: expandCalls_def)

theorem expandEnvObjs_search_path_order_witness:
  "\<exists>e'. expandCalls (snd (expandEnvObjs sampleCollab ''dev'' sampleManager [])) =
           [(e', [''/app/environments/dev/main.jsonnet''])] \<and>
         FlagJpath e' = [''/app/lib'', ''/app/vendor'', ''/app/environments/dev/.metadata'',
           ''/usr/share/jsonnet'']"
  using expandEnvObjs_search_path_order[OF sample_expander sample_LibPaths
      sample_ComponentPaths sample_baseObj, of "''dev''" "[]"]
  by (simp add: expandCalls_def)

text \<open>C1 as the specification states it fails: for the environment \<open>dev\<close> the search
  paths handed to the evaluator are not environment library, vendor, shared library,
  caller.\<close>

theorem expandEnvObjs_env_lib_not_first:
  "map FlagJpath
     (map fst (expandCalls (snd (expandEnvObjs sampleCollab ''dev'' sampleManager [])))) \<noteq>
   [[''/app/environments/dev/.metadata'', ''/app/vendor'', ''/app/lib'',
     ''/usr/share/jsonnet'']]"
  by (simp add: expandEnvObjs_def sampleCollab_def sampleManager_def io_defs expandCalls_def
      Let_def)


subsection \<open>C3: the order of the external code fragments\<close>

text \<open>
  C3. For every environment name, when the expander, the component paths and the base
  object are available, \<^verbatim>\<open>expandEnvObjs\<close> hands the evaluator the external code
  fragments in the order base object, imported environment parameters, and then the
  fragments the caller supplied. Consequently, under the precedence of the specification
  (\<open>extCodeValue\<close>), a name that the environment parameters define never takes its value
  from a fragment of the caller: it has the environment parameters' value, unless the
  base object, which comes first, defines it too.
\<close>

theorem expandEnvObjs_ext_code_order:
  assumes "newExpander K = Inr e"
    and "LibPaths m env = (libPath, vendorPath, envLibPath, envComponentPath, envParamsPath)"
    and "ComponentPaths m = Inr cps"
    and "constructBaseObj K cps [] = Inr baseObj"
  shows "\<exists>e'. expandCalls (snd (expandEnvObjs K env m tr)) =
             expandCalls tr @ [(e', [envComponentPath])] \<and>
           ExtCodes e' = [baseObj, importParams K envParamsPath] @ ExtCodes e \<and>
           (\<forall>name v. defines (importParams K envParamsPath) name = Some v \<longrightarrow>
              extCodeValue defines (ExtCodes e') name =
                (case defines baseObj name of Some b \<Rightarrow> Some b | None \<Rightarrow> Some v))"
  unfolding expandEnvObjs_ok[OF assms] by (simp add: expandCalls_def split: option.splits)

theorem expandEnvObjs_ext_code_order_witness:
  "\<exists>e'. expandCalls (snd (expandEnvObjs sampleCollab ''dev'' sampleManager [])) =
           [(e', [''/app/environments/dev/main.jsonnet''])] \<and>
         ExtCodes e' = [''components=base'', ''params=/app/environments/dev/params.libsonnet'',
           ''params=caller''] \<and>
         nameIs ''params=caller'' ''params'' = Some ''caller'' \<and>
         extCodeValue nameIs (ExtCodes e') ''params'' =
           Some ''/app/environments/dev/params.libsonnet''"
proof -
  have p: "importParams sampleCollab p = ''params='' @ p" for p
    by (simp add: sampleCollab_def)
  have n: "nameIs ''params=/app/environments/dev/params.libsonnet'' ''params'' =
      Some ''/app/environments/dev/params.libsonnet''"
    "nameIs ''components=base'' ''params'' = None"
    "nameIs ''params=caller'' ''params'' = Some ''caller''"
    by (simp_all add: nameIs_def)
  from expandEnvObjs_ext_code_order[OF sample_expander sample_LibPaths
      sample_ComponentPaths sample_baseObj, of "''dev''" "[]" nameIs]
  show ?thesis
    by (auto simp: p n expandCalls_def)
qed

section \<open>The trace only grows\<close>

lemma call_grows: "\<exists>evs. snd (call ev r tr) = tr @ evs"
  by (simp add: call_def)

lemma return_grows: "\<exists>evs. snd (return x tr) = tr @ evs"
  by (simp add: return_def)

lemma raise_grows: "\<exists>evs. snd (raise e tr) = tr @ evs"
  by (simp add: raise_def)

lemma andThen_grows_from:
  assumes m: "snd (m tr) = tr @ xs"
    and f: "\<And>x tr'. \<exists>evs. snd (f x tr') = tr' @ evs"
  shows "\<exists>evs. snd (andThen m f tr) = tr @ xs @ evs"
proof (cases "m tr")
  case (Pair r tr')
  with m have tr': "tr' = tr @ xs" by simp
  show ?thesis
  proof (cases r)
    case (Inl e)
    with Pair tr' show ?thesis by (simp add: andThen_def)
  next
    case (Inr x)
    from f[of x tr'] obtain evs where "snd (f x tr') = tr' @ evs" ..
    with Pair Inr tr' show ?thesis by (simp add: andThen_def)
  qed
qed

lemma andThen_grows:
  assumes m: "\<And>tr. \<exists>evs. snd (m tr) = tr @ evs"
    and f: "\<And>x tr'. \<exists>evs. snd (f x tr') = tr' @ evs"
  shows "\<exists>evs. snd (andThen m f tr) = tr @ evs"
proof -
  from m[of tr] obtain xs where "snd (m tr) = tr @ xs" ..
  from andThen_grows_from[of m tr xs f, OF this f] show ?thesis by blast
qed

lemma andThen_call_grows:
  assumes "\<And>x tr'. \<exists>evs. snd (f x tr') = tr' @ evs"
  shows "\<exists>evs. snd (andThen (call ev r) f tr) = tr @ ev # evs"
proof -
  have c: "snd (call ev r tr) = tr @ [ev]" by (simp add: call_def)
  from andThen_grows_from[of "call ev r" tr "[ev]" f, OF c assms] show ?thesis by simp
qed

lemma expandEnvObjs_grows: "\<exists>evs. snd (expandEnvObjs K env m tr) = tr @ evs"
  using expandEnvObjs_trace by blast

lemma setupClientConfig_grows: "\<exists>evs. snd (setupClientConfig K env tr) = tr @ evs"
  using setupClientConfig_trace by blast

lemmas grows =
  andThen_grows call_grows return_grows raise_grows expandEnvObjs_grows
  setupClientConfig_grows

lemma initDiffSingleEnv_grows: "\<exists>evs. snd (initDiffSingleEnv K env s files wd tr) = tr @ evs"
  unfolding initDiffSingleEnv_def
  by (auto intro!: grows simp: split_def)

lemma initDiffLocalCmd_grows: "\<exists>evs. snd (initDiffLocalCmd K a b s m tr) = tr @ evs"
  unfolding initDiffLocalCmd_def by (intro grows)

lemma initDiffRemotesCmd_grows: "\<exists>evs. snd (initDiffRemotesCmd K a b s m tr) = tr @ evs"
  unfolding initDiffRemotesCmd_def split_def by (intro grows)

lemma initDiffRemoteCmd_grows: "\<exists>evs. snd (initDiffRemoteCmd K a b s m tr) = tr @ evs"
  unfolding initDiffRemoteCmd_def split_def by (intro grows)

lemmas grows_builders = grows initDiffSingleEnv_grows initDiffLocalCmd_grows
  initDiffRemotesCmd_grows initDiffRemoteCmd_grows

lemma initDiffCmd_grows: "\<exists>evs. snd (initDiffCmd K wd e1 e2 files s tr) = tr @ evs"
  unfolding initDiffCmd_def Let_def split_def
  by (auto intro!: grows_builders split: option.splits)

section \<open>The entry point up to the resolver\<close>

text \<open>With one or two arguments, and when the working directory and the two flags can
  be read, \<^verbatim>\<open>RunE\<close> makes these three calls, then runs the resolver and, if it returns
  a command, the command.\<close>

lemma RunE_one:
  assumes "Getwd K = Inr cwd" and "GetStringArray K (flagComponent K) = Inr files"
    and "GetString K flagDiffStrategy = Inr s"
  shows "RunE K [env] tr =
     andThen (initDiffCmd K cwd (Some env) None files s)
       (\<lambda>c. call (CallRun c) (case Run K c of None \<Rightarrow> Inr () | Some e \<Rightarrow> Inl e))
       (tr @ [CallGetwd, CallGetStringArray (flagComponent K), CallGetString flagDiffStrategy])"
  using assms by (simp add: RunE_def andThen_def call_def Let_def)

lemma RunE_two:
  assumes "Getwd K = Inr cwd" and "GetStringArray K (flagComponent K) = Inr files"
    and "GetString K flagDiffStrategy = Inr s"
  shows "RunE K [e1, e2] tr =
     andThen (initDiffCmd K cwd (Some e1) (Some e2) files s)
       (\<lambda>c. call (CallRun c) (case Run K c of None \<Rightarrow> Inr () | Some e \<Rightarrow> Inl e))
       (tr @ [CallGetwd, CallGetStringArray (flagComponent K), CallGetString flagDiffStrategy])"
  using assms by (simp add: RunE_def andThen_def call_def Let_def)

lemma sample_flags:
  "Getwd sampleCollab = Inr ''/app''"
  "GetStringArray sampleCollab (flagComponent sampleCollab) = Inr []"
  "GetString sampleCollab flagDiffStrategy = Inr ''subset''"
  by (simp_all add: sampleCollab_def)

section \<open>The claims on the resolver and the entry point\<close>

subsection \<open>C5: one locator\<close>

text \<open>
  C5. With exactly one locator (the second pointer is nil): if the locator starts with
  \<open>local:\<close> or \<open>remote:\<close>, the resolver fails with PrefixNotAllowedForSingleArgument and
  makes no call at all, so no expansion and no client context; otherwise, when the
  expansion and the client lookups succeed, it returns a \<^verbatim>\<open>DiffRemoteCmd\<close> with the
  requested strategy that holds the objects expanded for that name and the client pool,
  discovery handle and namespace obtained for that same name. Seen from the entry point,
  an invocation with one prefixed locator ends with that error after reading the working
  directory and the two flags, and nothing else.
\<close>

theorem single_locator:
  "(HasPrefix env ''local:'' \<or> HasPrefix env ''remote:'' \<longrightarrow>
      initDiffCmd K wd (Some env) None files s tr =
        (Inl PrefixNotAllowedForSingleArgument, tr)) \<and>
   (\<not> HasPrefix env ''local:'' \<and> \<not> HasPrefix env ''remote:'' \<and>
    expandEnvCmdObjs K env files wd = Inr objs \<and>
    restClientPool K env = Inr (pool, disc) \<and> namespace K = Inr ns \<longrightarrow>
      initDiffCmd K wd (Some env) None files s tr =
        (Inr (DiffRemoteCmd s
           (Client0\<lparr>APIObjects := objs, ClientPool := pool, Discovery := disc,
              Namespace := ns\<rparr>)),
         tr @ [CallExpandEnvCmdObjs env files wd, CallRestClientPool env, CallNamespace])) \<and>
   ((HasPrefix env ''local:'' \<or> HasPrefix env ''remote:'') \<and>
    Getwd K = Inr wd \<and> GetStringArray K (flagComponent K) = Inr files \<and>
    GetString K flagDiffStrategy = Inr s \<longrightarrow>
      RunE K [env] tr =
        (Inl PrefixNotAllowedForSingleArgument,
         tr @ [CallGetwd, CallGetStringArray (flagComponent K),
               CallGetString flagDiffStrategy]))"
proof (intro conjI impI)
  assume "HasPrefix env ''local:'' \<or> HasPrefix env ''remote:''"
  then show "initDiffCmd K wd (Some env) None files s tr =
        (Inl PrefixNotAllowedForSingleArgument, tr)"
    by (auto simp: initDiffCmd_def initDiffSingleEnv_def raise_def)
next
  assume "\<not> HasPrefix env ''local:'' \<and> \<not> HasPrefix env ''remote:'' \<and>
    expandEnvCmdObjs K env files wd = Inr objs \<and>
    restClientPool K env = Inr (pool, disc) \<and> namespace K = Inr ns"
  then show "initDiffCmd K wd (Some env) None files s tr =
        (Inr (DiffRemoteCmd s
           (Client0\<lparr>APIObjects := objs, ClientPool := pool, Discovery := disc,
              Namespace := ns\<rparr>)),
         tr @ [CallExpandEnvCmdObjs env files wd, CallRestClientPool env, CallNamespace])"
    by (simp add: initDiffCmd_def initDiffSingleEnv_def io_defs)
next
  assume h: "(HasPrefix env ''local:'' \<or> HasPrefix env ''remote:'') \<and>
    Getwd K = Inr wd \<and> GetStringArray K (flagComponent K) = Inr files \<and>
    GetString K flagDiffStrategy = Inr s"
  then have "initDiffCmd K wd (Some env) None files s
      (tr @ [CallGetwd, CallGetStringArray (flagComponent K), CallGetString flagDiffStrategy]) =
    (Inl PrefixNotAllowedForSingleArgument,
     tr @ [CallGetwd, CallGetStringArray (flagComponent K), CallGetString flagDiffStrategy])"
    by (auto simp: initDiffCmd_def initDiffSingleEnv_def raise_def)
  with h show "RunE K [env] tr =
        (Inl PrefixNotAllowedForSingleArgument,
         tr @ [CallGetwd, CallGetStringArray (flagComponent K),
               CallGetString flagDiffStrategy])"
    by (simp add: RunE_one[of K wd files s] andThen_def)
qed

theorem single_locator_witness:
  "initDiffCmd sampleCollab ''/app'' (Some ''remote:dev'') None [] ''subset'' [] =
     (Inl PrefixNotAllowedForSingleArgument, []) \<and>
   RunE sampleCollab [''remote:dev''] [] =
     (Inl PrefixNotAllowedForSingleArgument,
      [CallGetwd, CallGetStringArray ''component'', CallGetString ''diff-strategy'']) \<and>
   initDiffCmd sampleCollab ''/app'' (Some ''dev'') None [''redis''] ''subset'' [] =
     (Inr (DiffRemoteCmd ''subset''
        \<lparr>Name = [], APIObjects = [''dev''], ClientPool = Some 1, Discovery = Some 2,
           Namespace = ''default''\<rparr>),
      [CallExpandEnvCmdObjs ''dev'' [''redis''] ''/app'', CallRestClientPool ''dev'',
       CallNamespace])"
proof -
  have a: "HasPrefix ''remote:dev'' ''remote:''" by (simp add: HasPrefix_def)
  have b: "\<not> HasPrefix ''dev'' ''local:''" "\<not> HasPrefix ''dev'' ''remote:''"
    by (simp_all add: HasPrefix_def)
  have c: "expandEnvCmdObjs sampleCollab ''dev'' [''redis''] ''/app'' = Inr [''dev'']"
    "restClientPool sampleCollab ''dev'' = Inr (Some 1, Some 2)"
    "namespace sampleCollab = Inr ''default''"
    by (simp_all add: sampleCollab_def)
  have f: "flagComponent sampleCollab = ''component''" by (simp add: sampleCollab_def)
  note p = single_locator[where env = "''remote:dev''" and K = sampleCollab
      and wd = "''/app''" and files = "[]" and s = "''subset''" and tr = "[]"]
  note q = single_locator[where env = "''dev''" and K = sampleCollab and wd = "''/app''"
      and files = "[''redis'']" and s = "''subset''" and tr = "[]" and objs = "[''dev'']"
      and pool = "Some 1" and disc = "Some 2" and ns = "''default''"]
  from p a sample_flags
  have "initDiffCmd sampleCollab ''/app'' (Some ''remote:dev'') None [] ''subset'' [] =
     (Inl PrefixNotAllowedForSingleArgument, [])"
    and "RunE sampleCollab [''remote:dev''] [] =
     (Inl PrefixNotAllowedForSingleArgument,
      [CallGetwd, CallGetStringArray ''component'', CallGetString ''diff-strategy''])"
    by (simp_all add: f flagDiffStrategy_def)
  moreover from q b c
  have "initDiffCmd sampleCollab ''/app'' (Some ''dev'') None [''redis''] ''subset'' [] =
     (Inr (DiffRemoteCmd ''subset''
        \<lparr>Name = [], APIObjects = [''dev''], ClientPool = Some 1, Discovery = Some 2,
           Namespace = ''default''\<rparr>),
      [CallExpandEnvCmdObjs ''dev'' [''redis''] ''/app'', CallRestClientPool ''dev'',
       CallNamespace])"
    by (simp add: Client0_def)
  ultimately show ?thesis by simp
qed

subsection \<open>C6: two locators, one of them without a prefix\<close>

text \<open>
  C6. With exactly two locators, if either of them starts neither with \<open>local:\<close> nor with
  \<open>remote:\<close>, the resolver fails with MissingOrInvalidPrefix and the trace is unchanged:
  no metadata lookup, no expansion and no client context precede the failure. This holds
  whatever the component filter is. Seen from the entry point, such an invocation ends
  with that error after reading the working directory and the two flags, and nothing
  else.
\<close>

theorem two_locators_need_prefix:
  assumes "\<not> (HasPrefix e1 ''local:'' \<or> HasPrefix e1 ''remote:'') \<or>
           \<not> (HasPrefix e2 ''local:'' \<or> HasPrefix e2 ''remote:'')"
  shows "initDiffCmd K wd (Some e1) (Some e2) files s tr = (Inl MissingOrInvalidPrefix, tr) \<and>
     (Getwd K = Inr wd \<and> GetStringArray K (flagComponent K) = Inr files \<and>
      GetString K flagDiffStrategy = Inr s \<longrightarrow>
        RunE K [e1, e2] tr =
          (Inl MissingOrInvalidPrefix,
           tr @ [CallGetwd, CallGetStringArray (flagComponent K),
                 CallGetString flagDiffStrategy]))"
proof (intro conjI impI)
  show "initDiffCmd K wd (Some e1) (Some e2) files s tr = (Inl MissingOrInvalidPrefix, tr)"
    using assms by (rule two_unqualified)
next
  assume h: "Getwd K = Inr wd \<and> GetStringArray K (flagComponent K) = Inr files \<and>
      GetString K flagDiffStrategy = Inr s"
  have "initDiffCmd K wd (Some e1) (Some e2) files s
      (tr @ [CallGetwd, CallGetStringArray (flagComponent K), CallGetString flagDiffStrategy]) =
    (Inl MissingOrInvalidPrefix,
     tr @ [CallGetwd, CallGetStringArray (flagComponent K), CallGetString flagDiffStrategy])"
    using assms by (rule two_unqualified)
  with h show "RunE K [e1, e2] tr =
          (Inl MissingOrInvalidPrefix,
           tr @ [CallGetwd, CallGetStringArray (flagComponent K),
                 CallGetString flagDiffStrategy])"
    by (simp add: RunE_two[of K wd files s] andThen_def)
qed

theorem two_locators_need_prefix_witness:
  "initDiffCmd sampleCollab ''/app'' (Some ''local:dev'') (Some ''prod'') [] ''subset'' [] =
     (Inl MissingOrInvalidPrefix, []) \<and>
   RunE sampleCollab [''local:dev'', ''prod''] [] =
     (Inl MissingOrInvalidPrefix,
      [CallGetwd, CallGetStringArray ''component'', CallGetString ''diff-strategy''])"
proof -
  have u: "\<not> (HasPrefix ''local:dev'' ''local:'' \<or> HasPrefix ''local:dev'' ''remote:'') \<or>
           \<not> (HasPrefix ''prod'' ''local:'' \<or> HasPrefix ''prod'' ''remote:'')"
    by (simp add: HasPrefix_def)
  have f: "flagComponent sampleCollab = ''component''" by (simp add: sampleCollab_def)
  from two_locators_need_prefix[OF u, where K = sampleCollab and wd = "''/app''"
      and files = "[]" and s = "''subset''" and tr = "[]"] sample_flags
  show ?thesis by (simp add: f flagDiffStrategy_def)
qed

subsection \<open>C8: the number of arguments\<close>

text \<open>
  C8. \<^verbatim>\<open>RunE\<close> with no argument fails with the "requires at least one argument" error,
  and with more than two arguments with TooManyArguments; in both cases the trace is
  unchanged, so nothing was looked up, expanded, connected, built or run. With one or two
  arguments it goes on: its first call is \<^verbatim>\<open>os.Getwd\<close>.
\<close>

theorem RunE_argument_count:
  "(length args = 0 \<longrightarrow> RunE K args tr = (Inl RequiresAtLeastOneArgument, tr)) \<and>
   (2 < length args \<longrightarrow> RunE K args tr = (Inl TooManyArguments, tr)) \<and>
   (length args = 1 \<or> length args = 2 \<longrightarrow>
      (\<exists>evs. snd (RunE K args tr) = tr @ CallGetwd # evs))"
proof (intro conjI impI)
  assume "length args = 0"
  then show "RunE K args tr = (Inl RequiresAtLeastOneArgument, tr)"
    by (simp add: RunE_def raise_def)
next
  assume "2 < length args"
  then show "RunE K args tr = (Inl TooManyArguments, tr)"
    by (auto simp: RunE_def raise_def)
next
  assume l: "length args = 1 \<or> length args = 2"
  then show "\<exists>evs. snd (RunE K args tr) = tr @ CallGetwd # evs"
    unfolding RunE_def Let_def
    by (auto intro!: andThen_call_grows grows initDiffCmd_grows)
qed

theorem RunE_argument_count_witness:
  "RunE sampleCollab [] [] = (Inl RequiresAtLeastOneArgument, []) \<and>
   RunE sampleCollab [''a'', ''b'', ''c''] [] = (Inl TooManyArguments, []) \<and>
   (\<exists>evs. snd (RunE sampleCollab [''dev''] []) = CallGetwd # evs)"
  using RunE_argument_count[of "[]" sampleCollab "[]"]
    RunE_argument_count[of "[''a'', ''b'', ''c'']" sampleCollab "[]"]
    RunE_argument_count[of "[''dev'']" sampleCollab "[]"]
  by simp

subsection \<open>C7: two locators and a component filter\<close>

lemma qualifiedD:
  assumes "HasPrefix e ''local:'' \<or> HasPrefix e ''remote:''"
  shows "\<exists>k a. (k = local \<or> k = remote) \<and> e = k @ '':'' @ a"
  using assms
proof
  assume "HasPrefix e ''local:''"
  then obtain r where "e = ''local:'' @ r" unfolding HasPrefix_iff ..
  then have "e = local @ '':'' @ r" by (simp add: local_def)
  then show ?thesis by blast
next
  assume "HasPrefix e ''remote:''"
  then obtain r where "e = ''remote:'' @ r" unfolding HasPrefix_iff ..
  then have "e = remote @ '':'' @ r" by (simp add: remote_def)
  then show ?thesis by blast
qed

text \<open>
  C7, as the code has it. With two locators and a non-empty component filter the
  resolver fails and the trace is unchanged, so no expansion and no client context was
  attempted. The error is UnsupportedFlagCombination when both locators start with
  \<open>local:\<close> or \<open>remote:\<close>; otherwise the check of the prefixes, which comes first, fails
  with MissingOrInvalidPrefix.
\<close>

theorem two_locators_with_filter:
  assumes "files \<noteq> []"
  shows "initDiffCmd K wd (Some e1) (Some e2) files s tr =
     (if (HasPrefix e1 ''local:'' \<or> HasPrefix e1 ''remote:'') \<and>
         (HasPrefix e2 ''local:'' \<or> HasPrefix e2 ''remote:'')
      then Inl UnsupportedFlagCombination else Inl MissingOrInvalidPrefix, tr)"
proof (cases "(HasPrefix e1 ''local:'' \<or> HasPrefix e1 ''remote:'') \<and>
         (HasPrefix e2 ''local:'' \<or> HasPrefix e2 ''remote:'')")
  case True
  then obtain k1 a k2 b where k: "k1 = local \<or> k1 = remote" "k2 = local \<or> k2 = remote"
    and e: "e1 = k1 @ '':'' @ a" "e2 = k2 @ '':'' @ b"
    using qualifiedD[of e1] qualifiedD[of e2] by blast
  from True assms show ?thesis
    unfolding e two_qualified[OF k] by (simp add: raise_def)
next
  case False
  then have "\<not> (HasPrefix e1 ''local:'' \<or> HasPrefix e1 ''remote:'') \<or>
             \<not> (HasPrefix e2 ''local:'' \<or> HasPrefix e2 ''remote:'')" by blast
  from two_unqualified[OF this] False show ?thesis by simp
qed

theorem two_locators_with_filter_witness:
  "initDiffCmd sampleCollab ''/app'' (Some ''local:a'') (Some ''local:b'') [''redis'']
     ''subset'' [] = (Inl UnsupportedFlagCombination, [])"
  using two_locators_with_filter[of "[''redis'']" sampleCollab "''/app''" "''local:a''"
      "''local:b''" "''subset''" "[]"]
  by (simp add: HasPrefix_def)

text \<open>C7 as the specification states it fails: two locators without a prefix and a
  component filter give MissingOrInvalidPrefix, not UnsupportedFlagCombination.\<close>

theorem unqualified_with_filter_not_flag_error:
  "initDiffCmd sampleCollab ''/app'' (Some ''dev'') (Some ''prod'') [''redis''] ''subset'' [] =
     (Inl MissingOrInvalidPrefix, []) \<and>
   fst (initDiffCmd sampleCollab ''/app'' (Some ''dev'') (Some ''prod'') [''redis'']
     ''subset'' []) \<noteq> Inl UnsupportedFlagCombination"
proof -
  have "\<not> (HasPrefix ''dev'' ''local:'' \<or> HasPrefix ''dev'' ''remote:'')"
    by (simp add: HasPrefix_def)
  then have "initDiffCmd sampleCollab ''/app'' (Some ''dev'') (Some ''prod'') [''redis'']
     ''subset'' [] = (Inl MissingOrInvalidPrefix, [])"
    by (intro two_unqualified) blast
  then show ?thesis by simp
qed

subsection \<open>C4: a colon after a prefix that is neither local nor remote\<close>

lemma foreign_prefix_unqualified:
  assumes "Cut raw CHR '':'' = Some (p, r)" and "p \<noteq> local" and "p \<noteq> remote"
  shows "\<not> (HasPrefix raw ''local:'' \<or> HasPrefix raw ''remote:'')"
proof -
  from assms(1) have "SplitN raw CHR '':'' 2 = [p, r]" by (simp add: SplitN_2)
  with assms(2,3) show ?thesis
    using local_iff[of raw] remote_iff[of raw] by simp
qed

text \<open>
  C4, as the code has it. Let the raw locator contain a colon, and let the text before
  its first colon be neither \<open>local\<close> nor \<open>remote\<close>. In the two-argument form, in either
  position, the resolver fails with MissingOrInvalidPrefix, the only locator error of the
  file, with the trace unchanged and no command built. In the one-argument form the
  locator is not rejected: the resolver goes on to the expansion, with the whole raw
  string as the environment name.
\<close>

theorem foreign_prefix:
  assumes "Cut raw CHR '':'' = Some (p, r)" and "p \<noteq> local" and "p \<noteq> remote"
  shows "initDiffCmd K wd (Some raw) (Some other) files s tr =
           (Inl MissingOrInvalidPrefix, tr) \<and>
         initDiffCmd K wd (Some other) (Some raw) files s tr =
           (Inl MissingOrInvalidPrefix, tr) \<and>
         (\<exists>evs. snd (initDiffCmd K wd (Some raw) None files s tr) =
            tr @ CallExpandEnvCmdObjs raw files wd # evs)"
proof -
  note u = foreign_prefix_unqualified[OF assms]
  have "\<exists>evs. snd (initDiffSingleEnv K raw s files wd tr) =
      tr @ CallExpandEnvCmdObjs raw files wd # evs"
    using u unfolding initDiffSingleEnv_def
    by (auto intro!: andThen_call_grows grows simp: split_def)
  then have "\<exists>evs. snd (initDiffCmd K wd (Some raw) None files s tr) =
            tr @ CallExpandEnvCmdObjs raw files wd # evs"
    by (simp add: initDiffCmd_def)
  moreover have "initDiffCmd K wd (Some raw) (Some other) files s tr =
           (Inl MissingOrInvalidPrefix, tr)"
    using u by (intro two_unqualified) blast
  moreover have "initDiffCmd K wd (Some other) (Some raw) files s tr =
           (Inl MissingOrInvalidPrefix, tr)"
    using u by (intro two_unqualified) blast
  ultimately show ?thesis by blast
qed

theorem foreign_prefix_witness:
  "initDiffCmd sampleCollab ''/app'' (Some ''staging:dev'') (Some ''local:dev'') [] ''subset'' []
     = (Inl MissingOrInvalidPrefix, []) \<and>
   initDiffCmd sampleCollab ''/app'' (Some ''local:dev'') (Some ''staging:dev'') [] ''subset'' []
     = (Inl MissingOrInvalidPrefix, []) \<and>
   (\<exists>evs. snd (initDiffCmd sampleCollab ''/app'' (Some ''staging:dev'') None [] ''subset'' [])
      = CallExpandEnvCmdObjs ''staging:dev'' [] ''/app'' # evs)"
proof -
  have c: "Cut ''staging:dev'' CHR '':'' = Some (''staging'', ''dev'')" by simp
  have n: "''staging'' \<noteq> local" "''staging'' \<noteq> remote"
    by (simp_all add: local_def remote_def)
  from foreign_prefix[OF c n, of sampleCollab "''/app''" "''local:dev''" "[]" "''subset''" "[]"]
  show ?thesis by simp
qed

text \<open>C4 as the specification states it fails in the one-argument form: the locator
  \<open>staging:dev\<close> given alone is not rejected. It is expanded, and a command is
  returned.\<close>

theorem single_foreign_prefix_accepted:
  "initDiffCmd sampleCollab ''/app'' (Some ''staging:dev'') None [] ''subset'' [] =
     (Inr (DiffRemoteCmd ''subset''
        \<lparr>Name = [], APIObjects = [''staging:dev''], ClientPool = Some 1, Discovery = Some 2,
           Namespace = ''default''\<rparr>),
      [CallExpandEnvCmdObjs ''staging:dev'' [] ''/app'', CallRestClientPool ''staging:dev'',
       CallNamespace])"
  by (simp add: initDiffCmd_def initDiffSingleEnv_def HasPrefix_def io_defs sampleCollab_def
      Client0_def)


section \<open>The dispatch on the kinds of two locators\<close>

lemma initDiffLocalCmd_Inr:
  assumes "fst (initDiffLocalCmd K a b s m tr) = Inr c"
  shows "\<exists>x y. c = DiffLocalCmd s \<lparr>LocalEnv.Name = a, APIObjects = x\<rparr>
                                   \<lparr>LocalEnv.Name = b, APIObjects = y\<rparr>"
  using assms unfolding initDiffLocalCmd_def
  by (auto simp: io_defs LocalEnv0_def split: sum.splits prod.splits)

lemma initDiffRemotesCmd_Inr:
  assumes "fst (initDiffRemotesCmd K a b s m tr) = Inr c"
  shows "\<exists>ca cb. c = DiffRemotesCmd s ca cb \<and> Name ca = a \<and> Name cb = b"
  using assms unfolding initDiffRemotesCmd_def
  by (auto simp: io_defs Client0_def split: sum.splits prod.splits)

lemma initDiffRemoteCmd_Inr:
  assumes "fst (initDiffRemoteCmd K a b s m tr) = Inr c"
  shows "\<exists>cl. c = DiffRemoteCmd s cl"
  using assms unfolding initDiffRemoteCmd_def
  by (auto simp: io_defs Client0_def split: sum.splits prod.splits)

lemma andThen_Inr:
  assumes "fst (andThen m f tr) = Inr c"
  shows "\<exists>x tr'. m tr = (Inr x, tr') \<and> fst (f x tr') = Inr c"
  using assms by (auto simp: andThen_def split: sum.splits prod.splits)

lemma kind_literals: "''local:'' @ a = local @ '':'' @ a" "''remote:'' @ a = remote @ '':'' @ a"
  by (simp_all add: local_def remote_def)

lemma dispatch_local_local:
  "initDiffCmd K wd (Some (''local:'' @ a)) (Some (''local:'' @ b)) [] s =
     andThen (call (CallFind wd) (Find K wd)) (initDiffLocalCmd K a b s)"
  unfolding kind_literals by (subst two_qualified) (simp_all add: kinds_distinct)

lemma dispatch_remote_remote:
  "initDiffCmd K wd (Some (''remote:'' @ a)) (Some (''remote:'' @ b)) [] s =
     andThen (call (CallFind wd) (Find K wd)) (initDiffRemotesCmd K a b s)"
  unfolding kind_literals
  using kinds_distinct(1) by (subst two_qualified) (simp_all)

lemma dispatch_local_remote:
  "initDiffCmd K wd (Some (''local:'' @ a)) (Some (''remote:'' @ b)) [] s =
     andThen (call (CallFind wd) (Find K wd)) (initDiffRemoteCmd K a b s)"
  unfolding kind_literals
  using kinds_distinct(1) by (subst two_qualified) (simp_all)

lemma dispatch_remote_local:
  "initDiffCmd K wd (Some (''remote:'' @ b)) (Some (''local:'' @ a)) [] s =
     andThen (call (CallFind wd) (Find K wd)) (initDiffRemoteCmd K a b s)"
  unfolding kind_literals
  using kinds_distinct(1) by (subst two_qualified) (simp_all)

lemma sample_expand:
  "expandEnvObjs sampleCollab env sampleManager tr =
     (if env = ''broken'' then Inl (CollaboratorError ''template evaluation failed'')
      else Inr [''/app/environments/'' @ env @ ''/main.jsonnet''],
      tr @ [CallNewExpander, CallLibPaths env, CallComponentPaths,
            CallConstructBaseObj [''/app/components/redis.jsonnet''] [],
            CallImportParams (''/app/environments/'' @ env @ ''/params.libsonnet''),
            CallExpand
              \<lparr>FlagJpath = [''/app/lib'', ''/app/vendor'',
                   ''/app/environments/'' @ env @ ''/.metadata'', ''/usr/share/jsonnet''],
                 ExtCodes = [''components=base'',
                   ''params=/app/environments/'' @ env @ ''/params.libsonnet'',
                   ''params=caller'']\<rparr>
              [''/app/environments/'' @ env @ ''/main.jsonnet'']])"
  unfolding expandEnvObjs_ok[OF sample_expander sample_LibPaths sample_ComponentPaths
      sample_baseObj]
  by (simp add: sampleCollab_def)

lemma sample_client:
  "setupClientConfig sampleCollab env tr =
     (Inr (Some 1, Some 2, env), tr @ [CallRestClient env [], CallNamespaceFor env])"
  by (simp add: setupClientConfig_def sampleCollab_def io_defs ConfigOverrides0_def)

lemma sample_Find: "Find sampleCollab wd = Inr sampleManager"
  by (simp add: sampleCollab_def)

lemma mixed_sides:
  assumes "Find K wd = Inr m"
    and "expandEnvObjs K a m (tr @ [CallFind wd]) = (Inr objs, tr1)"
    and "setupClientConfig K b tr1 = (Inr (pool, disc, ns), tr2)"
  shows "andThen (call (CallFind wd) (Find K wd)) (initDiffRemoteCmd K a b s) tr =
     (Inr (DiffRemoteCmd s
        (Client0\<lparr>APIObjects := objs, ClientPool := pool, Discovery := disc,
           Namespace := ns\<rparr>)), tr2)"
  using assms by (simp add: initDiffRemoteCmd_def io_defs)

subsection \<open>C2: the variant is chosen by the kinds, not by the positions\<close>

text \<open>
  C2. For two locators with valid prefixes and no component filter, the resolver looks up
  the metadata and then runs exactly one builder: \<^verbatim>\<open>initDiffLocalCmd\<close> for local and
  local, \<^verbatim>\<open>initDiffRemotesCmd\<close> for remote and remote, \<^verbatim>\<open>initDiffRemoteCmd\<close> for one
  of each. In the mixed case the name of the local locator is the one that is expanded
  and the name of the remote locator is the one the client context is set up for, in
  either order of the arguments: swapping the two arguments gives the same computation.
  A command that is returned is of the builder's variant, carries the requested strategy,
  and in the mixed case holds the objects expanded for the local name and the client
  obtained for the remote name.
\<close>

theorem resolver_dispatch:
  "initDiffCmd K wd (Some (''local:'' @ a)) (Some (''local:'' @ b)) [] s =
     andThen (call (CallFind wd) (Find K wd)) (initDiffLocalCmd K a b s) \<and>
   initDiffCmd K wd (Some (''remote:'' @ a)) (Some (''remote:'' @ b)) [] s =
     andThen (call (CallFind wd) (Find K wd)) (initDiffRemotesCmd K a b s) \<and>
   initDiffCmd K wd (Some (''local:'' @ a)) (Some (''remote:'' @ b)) [] s =
     andThen (call (CallFind wd) (Find K wd)) (initDiffRemoteCmd K a b s) \<and>
   initDiffCmd K wd (Some (''remote:'' @ b)) (Some (''local:'' @ a)) [] s =
     initDiffCmd K wd (Some (''local:'' @ a)) (Some (''remote:'' @ b)) [] s \<and>
   (\<forall>c. fst (initDiffCmd K wd (Some (''local:'' @ a)) (Some (''local:'' @ b)) [] s tr) = Inr c
      \<longrightarrow> (\<exists>x y. c = DiffLocalCmd s \<lparr>LocalEnv.Name = a, APIObjects = x\<rparr>
                                      \<lparr>LocalEnv.Name = b, APIObjects = y\<rparr>)) \<and>
   (\<forall>c. fst (initDiffCmd K wd (Some (''remote:'' @ a)) (Some (''remote:'' @ b)) [] s tr) = Inr c
      \<longrightarrow> (\<exists>ca cb. c = DiffRemotesCmd s ca cb \<and> Name ca = a \<and> Name cb = b)) \<and>
   (\<forall>c. fst (initDiffCmd K wd (Some (''local:'' @ a)) (Some (''remote:'' @ b)) [] s tr) = Inr c
      \<longrightarrow> (\<exists>cl. c = DiffRemoteCmd s cl)) \<and>
   (Find K wd = Inr m \<and>
    expandEnvObjs K a m (tr @ [CallFind wd]) = (Inr objs, tre) \<and>
    setupClientConfig K b tre = (Inr (pool, disc, ns), trc) \<longrightarrow>
      initDiffCmd K wd (Some (''remote:'' @ b)) (Some (''local:'' @ a)) [] s tr =
        (Inr (DiffRemoteCmd s
           (Client0\<lparr>APIObjects := objs, ClientPool := pool, Discovery := disc,
              Namespace := ns\<rparr>)), trc))"
proof (intro conjI allI impI)
  fix c
  assume "fst (initDiffCmd K wd (Some (''local:'' @ a)) (Some (''local:'' @ b)) [] s tr) = Inr c"
  then obtain m tr' where "fst (initDiffLocalCmd K a b s m tr') = Inr c"
    unfolding dispatch_local_local by (blast dest: andThen_Inr)
  then show "\<exists>x y. c = DiffLocalCmd s \<lparr>LocalEnv.Name = a, APIObjects = x\<rparr>
                                   \<lparr>LocalEnv.Name = b, APIObjects = y\<rparr>"
    by (rule initDiffLocalCmd_Inr)
next
  fix c
  assume "fst (initDiffCmd K wd (Some (''remote:'' @ a)) (Some (''remote:'' @ b)) [] s tr) = Inr c"
  then obtain m tr' where "fst (initDiffRemotesCmd K a b s m tr') = Inr c"
    unfolding dispatch_remote_remote by (blast dest: andThen_Inr)
  then show "\<exists>ca cb. c = DiffRemotesCmd s ca cb \<and> Name ca = a \<and> Name cb = b"
    by (rule initDiffRemotesCmd_Inr)
next
  fix c
  assume "fst (initDiffCmd K wd (Some (''local:'' @ a)) (Some (''remote:'' @ b)) [] s tr) = Inr c"
  then obtain m tr' where "fst (initDiffRemoteCmd K a b s m tr') = Inr c"
    unfolding dispatch_local_remote by (blast dest: andThen_Inr)
  then show "\<exists>cl. c = DiffRemoteCmd s cl"
    by (rule initDiffRemoteCmd_Inr)
next
  assume "Find K wd = Inr m \<and>
      expandEnvObjs K a m (tr @ [CallFind wd]) = (Inr objs, tre) \<and>
      setupClientConfig K b tre = (Inr (pool, disc, ns), trc)"
  then have h: "Find K wd = Inr m"
    "expandEnvObjs K a m (tr @ [CallFind wd]) = (Inr objs, tre)"
    "setupClientConfig K b tre = (Inr (pool, disc, ns), trc)" by simp_all
  show "initDiffCmd K wd (Some (''remote:'' @ b)) (Some (''local:'' @ a)) [] s tr =
        (Inr (DiffRemoteCmd s
           (Client0\<lparr>APIObjects := objs, ClientPool := pool, Discovery := disc,
              Namespace := ns\<rparr>)), trc)"
    unfolding dispatch_remote_local by (rule mixed_sides[OF h])
qed (simp_all only: dispatch_local_local dispatch_remote_remote dispatch_local_remote
    dispatch_remote_local)

theorem resolver_dispatch_witness:
  "initDiffCmd sampleCollab ''/app'' (Some ''remote:prod'') (Some ''local:dev'') [] ''subset'' =
     initDiffCmd sampleCollab ''/app'' (Some ''local:dev'') (Some ''remote:prod'') [] ''subset''
   \<and>
   fst (initDiffCmd sampleCollab ''/app'' (Some ''remote:prod'') (Some ''local:dev'') []
          ''subset'' []) =
     Inr (DiffRemoteCmd ''subset''
       \<lparr>Name = [], APIObjects = [''/app/environments/dev/main.jsonnet''],
          ClientPool = Some 1, Discovery = Some 2, Namespace = ''prod''\<rparr>)"
proof -
  note d = resolver_dispatch[where K = sampleCollab and wd = "''/app''" and a = "''dev''"
      and b = "''prod''" and s = "''subset''" and tr = "[]" and m = sampleManager
      and objs = "[''/app/environments/dev/main.jsonnet'']"
      and tre = "snd (expandEnvObjs sampleCollab ''dev'' sampleManager [CallFind ''/app''])"
      and pool = "Some 1" and disc = "Some 2" and ns = "''prod''"
      and trc = "snd (setupClientConfig sampleCollab ''prod''
        (snd (expandEnvObjs sampleCollab ''dev'' sampleManager [CallFind ''/app''])))"]
  note d = d[unfolded append.simps]
  have e: "expandEnvObjs sampleCollab ''dev'' sampleManager [CallFind ''/app''] =
      (Inr [''/app/environments/dev/main.jsonnet''],
       snd (expandEnvObjs sampleCollab ''dev'' sampleManager [CallFind ''/app'']))"
    by (simp add: sample_expand)
  have c: "setupClientConfig sampleCollab ''prod''
        (snd (expandEnvObjs sampleCollab ''dev'' sampleManager [CallFind ''/app''])) =
      (Inr (Some 1, Some 2, ''prod''),
       snd (setupClientConfig sampleCollab ''prod''
        (snd (expandEnvObjs sampleCollab ''dev'' sampleManager [CallFind ''/app'']))))"
    by (simp add: sample_client)
  show ?thesis
  proof (rule conjI)
    from d show "initDiffCmd sampleCollab ''/app'' (Some ''remote:prod'') (Some ''local:dev'')
        [] ''subset'' =
      initDiffCmd sampleCollab ''/app'' (Some ''local:dev'') (Some ''remote:prod'') []
        ''subset''"
      by blast
  next
    from d sample_Find[of "''/app''"] e c
    have "initDiffCmd sampleCollab ''/app'' (Some ''remote:prod'') (Some ''local:dev'') []
        ''subset'' [] =
      (Inr (DiffRemoteCmd ''subset''
         (Client0\<lparr>APIObjects := [''/app/environments/dev/main.jsonnet''],
            ClientPool := Some 1, Discovery := Some 2, Namespace := ''prod''\<rparr>)),
       snd (setupClientConfig sampleCollab ''prod''
        (snd (expandEnvObjs sampleCollab ''dev'' sampleManager [CallFind ''/app'']))))"
      by blast
    then show "fst (initDiffCmd sampleCollab ''/app'' (Some ''remote:prod'')
        (Some ''local:dev'') [] ''subset'' []) =
      Inr (DiffRemoteCmd ''subset''
        \<lparr>Name = [], APIObjects = [''/app/environments/dev/main.jsonnet''],
           ClientPool = Some 1, Discovery = Some 2, Namespace = ''prod''\<rparr>)"
      by (simp add: Client0_def)
  qed
qed

subsection \<open>C9: two remote environments are expanded locally first\<close>

lemma andThen_Inl_eq: "m tr = (Inl e, tr') \<Longrightarrow> andThen m f tr = (Inl e, tr')"
  by (simp add: andThen_def)

lemma andThen_Inr_eq: "m tr = (Inr x, tr') \<Longrightarrow> andThen m f tr = f x tr'"
  by (simp add: andThen_def)

lemma clients_only:
  "\<exists>evs. snd (andThen (setupClientConfig K ea)
              (\<lambda>p. andThen (setupClientConfig K eb) (\<lambda>q. return (g p q))) t) = t @ evs \<and>
         evs \<noteq> [] \<and> (\<forall>ev \<in> set evs. isClientCall ev)"
proof -
  obtain xs where xs: "snd (setupClientConfig K ea t) = t @ xs" "xs \<noteq> []"
    "\<forall>ev \<in> set xs. isClientCall ev"
    using setupClientConfig_trace[of K ea t] by blast
  obtain ys where ys: "snd (setupClientConfig K eb (t @ xs)) = (t @ xs) @ ys"
    "\<forall>ev \<in> set ys. isClientCall ev"
    using setupClientConfig_trace[of K eb "t @ xs"] by blast
  show ?thesis
  proof (cases "setupClientConfig K ea t")
    case (Pair r t')
    with xs(1) have t': "t' = t @ xs" by simp
    show ?thesis
    proof (cases r)
      case (Inl e)
      with Pair t' xs show ?thesis by (auto simp: andThen_def)
    next
      case (Inr p)
      have "snd (andThen (setupClientConfig K eb) (\<lambda>q. return (g p q)) (t @ xs)) =
          t @ (xs @ ys)"
        using ys(1) by (auto simp: andThen_def return_def split: sum.splits prod.splits)
      with Pair Inr t' xs ys(2) show ?thesis
        by (intro exI[of _ "xs @ ys"]) (auto simp: andThen_def)
    qed
  qed
qed

lemma filter_client_expand:
  "filter isClientCall (snd (expandEnvObjs K env m tr)) = filter isClientCall tr"
proof -
  obtain evs where "snd (expandEnvObjs K env m tr) = tr @ evs"
    "\<forall>ev \<in> set evs. \<not> isClientCall ev"
    using expandEnvObjs_trace[of K env m tr] by blast
  then show ?thesis by simp
qed

text \<open>
  C9. Two locators qualified as remote are resolved by \<^verbatim>\<open>initDiffRemotesCmd\<close>, which
  first expands the first name, then the second name, and only then sets up the client
  contexts. The two expansions make no client call. If the first expansion fails, or the
  first succeeds and the second fails, the builder returns that error with the trace as
  the expansion left it, so with no client context built. If both succeed, every call
  that follows is a client call, and there is at least one.
\<close>

theorem remotes_expand_before_clients:
  assumes a: "expandEnvObjs K enva m tr = (ra, tra)"
    and b: "expandEnvObjs K envb m tra = (rb, trb)"
  shows "(\<forall>e. ra = Inl e \<longrightarrow> initDiffRemotesCmd K enva envb s m tr = (Inl e, tra)) \<and>
     (\<forall>x e. ra = Inr x \<and> rb = Inl e \<longrightarrow>
        initDiffRemotesCmd K enva envb s m tr = (Inl e, trb)) \<and>
     (\<forall>x y. ra = Inr x \<and> rb = Inr y \<longrightarrow>
        (\<exists>evs. snd (initDiffRemotesCmd K enva envb s m tr) = trb @ evs \<and> evs \<noteq> [] \<and>
           (\<forall>ev \<in> set evs. isClientCall ev))) \<and>
     filter isClientCall tra = filter isClientCall tr \<and>
     filter isClientCall trb = filter isClientCall tr \<and>
     initDiffCmd K wd (Some (''remote:'' @ enva)) (Some (''remote:'' @ envb)) [] s =
       andThen (call (CallFind wd) (Find K wd)) (initDiffRemotesCmd K enva envb s)"
proof (intro conjI allI impI)
  fix e assume "ra = Inl e"
  with a show "initDiffRemotesCmd K enva envb s m tr = (Inl e, tra)"
    by (simp add: initDiffRemotesCmd_def andThen_def)
next
  fix x e assume "ra = Inr x \<and> rb = Inl e"
  with a b show "initDiffRemotesCmd K enva envb s m tr = (Inl e, trb)"
    by (simp add: initDiffRemotesCmd_def andThen_def)
next
  fix x y assume "ra = Inr x \<and> rb = Inr y"
  with a b have a': "expandEnvObjs K enva m tr = (Inr x, tra)"
    and b': "expandEnvObjs K envb m tra = (Inr y, trb)" by simp_all
  have "initDiffRemotesCmd K enva envb s m tr =
      andThen (setupClientConfig K enva)
        (\<lambda>p. andThen (setupClientConfig K envb)
          (\<lambda>q. return (DiffRemotesCmd s
             (Client0\<lparr>Name := enva, APIObjects := x, ClientPool := fst p,
                Discovery := fst (snd p), Namespace := snd (snd p)\<rparr>)
             (Client0\<lparr>Name := envb, APIObjects := y, ClientPool := fst q,
                Discovery := fst (snd q), Namespace := snd (snd q)\<rparr>)))) trb"
    unfolding initDiffRemotesCmd_def split_def
    by (simp only: andThen_Inr_eq[of "expandEnvObjs K enva m" tr x tra, OF a']
        andThen_Inr_eq[of "expandEnvObjs K envb m" tra y trb, OF b'])
  then show "\<exists>evs. snd (initDiffRemotesCmd K enva envb s m tr) = trb @ evs \<and> evs \<noteq> [] \<and>
           (\<forall>ev \<in> set evs. isClientCall ev)"
    using clients_only by simp
next
  from a filter_client_expand[of K enva m tr]
  show ta: "filter isClientCall tra = filter isClientCall tr" by simp
  from b filter_client_expand[of K envb m tra] ta
  show "filter isClientCall trb = filter isClientCall tr" by simp
next
  show "initDiffCmd K wd (Some (''remote:'' @ enva)) (Some (''remote:'' @ envb)) [] s =
       andThen (call (CallFind wd) (Find K wd)) (initDiffRemotesCmd K enva envb s)"
    by (rule dispatch_remote_remote)
qed

theorem remotes_expand_before_clients_witness:
  "fst (initDiffRemotesCmd sampleCollab ''dev'' ''broken'' ''subset'' sampleManager []) =
     Inl (CollaboratorError ''template evaluation failed'') \<and>
   filter isClientCall
     (snd (initDiffRemotesCmd sampleCollab ''dev'' ''broken'' ''subset'' sampleManager [])) = []"
proof -
  have a: "expandEnvObjs sampleCollab ''dev'' sampleManager [] =
      (Inr [''/app/environments/dev/main.jsonnet''],
       snd (expandEnvObjs sampleCollab ''dev'' sampleManager []))"
    by (simp add: sample_expand)
  have b: "expandEnvObjs sampleCollab ''broken'' sampleManager
        (snd (expandEnvObjs sampleCollab ''dev'' sampleManager [])) =
      (Inl (CollaboratorError ''template evaluation failed''),
       snd (expandEnvObjs sampleCollab ''broken'' sampleManager
        (snd (expandEnvObjs sampleCollab ''dev'' sampleManager []))))"
    by (simp add: sample_expand)
  from remotes_expand_before_clients[OF a b, of "''subset''" "''/app''"]
  show ?thesis by simp
qed

subsection \<open>C10: an empty environment name is accepted\<close>






end
